theory Spec2Isabelle
  imports Complex_Main
begin

section \<open>Numbers\<close>

text \<open>
  The flyby engine lives in \<^verbatim>\<open>frontend/src/App.tsx\<close> (the current version of the file,
  from \<^verbatim>\<open>const clamp\<close> on). Every quantity there is a JavaScript \<^verbatim>\<open>number\<close>. Finite
  numbers are read as real numbers, so rounding of the double-precision arithmetic is not
  part of the model. The one non-finite value a claim speaks about, NaN, is modelled by the
  type \<open>number\<close> below, with the behaviour of \<^verbatim>\<open>Math.max\<close>, \<^verbatim>\<open>Math.min\<close> and \<^verbatim>\<open>*\<close> on it.
\<close>

definition clamp :: "real \<Rightarrow> real \<Rightarrow> real \<Rightarrow> real" where
  "clamp v lo hi = min (max v lo) hi"

definition lerp :: "real \<Rightarrow> real \<Rightarrow> real \<Rightarrow> real" where
  "lerp a b t = a + (b - a) * t"

text \<open>
  The remainder operator \<^verbatim>\<open>%\<close> of JavaScript truncates the quotient towards zero, so the
  result has the sign of the dividend.
\<close>

definition js_trunc :: "real \<Rightarrow> int" where
  "js_trunc x = (if 0 \<le> x then \<lfloor>x\<rfloor> else \<lceil>x\<rceil>)"

definition js_mod :: "real \<Rightarrow> real \<Rightarrow> real" where
  "js_mod a b = a - b * of_int (js_trunc (a / b))"

definition shortestAngleDiff :: "real \<Rightarrow> real \<Rightarrow> real" where
  "shortestAngleDiff from to = js_mod (to - from + 540) 360 - 180"

subsection \<open>NaN\<close>








section \<open>Geodesic helpers\<close>

definition toRad :: "real \<Rightarrow> real" where
  "toRad deg = deg * pi / 180"

definition toDeg :: "real \<Rightarrow> real" where
  "toDeg rad = rad * 180 / pi"

text \<open>\<^verbatim>\<open>Math.atan2(y, x)\<close>, the angle of the point \<open>(x, y)\<close> in \<open>(-\<pi>, \<pi>]\<close>; signed zeros are not modelled.\<close>

definition Math_atan2 :: "real \<Rightarrow> real \<Rightarrow> real" where
  "Math_atan2 y x =
     (if 0 < x then arctan (y / x)
      else if x < 0 then (if 0 \<le> y then arctan (y / x) + pi else arctan (y / x) - pi)
      else if 0 < y then pi / 2
      else if y < 0 then - (pi / 2)
      else 0)"

definition bearingDeg :: "real \<Rightarrow> real \<Rightarrow> real \<Rightarrow> real \<Rightarrow> real" where
  "bearingDeg lat1 lon1 lat2 lon2 =
     (let phi1 = toRad lat1;
          phi2 = toRad lat2;
          lambda1 = toRad lon1;
          lambda2 = toRad lon2;
          y = sin (lambda2 - lambda1) * cos phi2;
          x = cos phi1 * sin phi2 - sin phi1 * cos phi2 * cos (lambda2 - lambda1)
      in js_mod (toDeg (Math_atan2 y x) + 360) 360)"

definition haversineMeters :: "real \<Rightarrow> real \<Rightarrow> real \<Rightarrow> real \<Rightarrow> real" where
  "haversineMeters lat1 lon1 lat2 lon2 =
     (let R = 6371000;
          dLat = toRad (lat2 - lat1);
          dLon = toRad (lon2 - lon1);
          a = (sin (dLat / 2))\<^sup>2 + cos (toRad lat1) * cos (toRad lat2) * (sin (dLon / 2))\<^sup>2
      in 2 * R * Math_atan2 (sqrt a) (sqrt (1 - a)))"

section \<open>Track points and the distance lookup\<close>

record TrackPoint =
  lat :: real
  lon :: real
  ele :: "real option"
  time :: "string option"
  distanceFromStartM :: real

text \<open>
  The value \<^verbatim>\<open>{ lat, lon, index }\<close> returned by \<^verbatim>\<open>interpolatePointAtDistance\<close>; the fields carry
  a prefix because \<open>lat\<close> and \<open>lon\<close> are the fields of a track point.
\<close>

record Interp =
  i_lat :: real
  i_lon :: real
  i_index :: nat

text \<open>The \<^verbatim>\<open>while (low < high)\<close> loop of the lookup: a lower-bound binary search.\<close>

function searchLoop :: "TrackPoint list \<Rightarrow> real \<Rightarrow> nat \<Rightarrow> nat \<Rightarrow> nat" where
  "searchLoop points target low high =
     (if low < high then
        (let mid = (low + high) div 2 in
         if distanceFromStartM (points ! mid) < target
         then searchLoop points target (mid + 1) high
         else searchLoop points target low mid)
      else low)"
  by pat_completeness auto
termination
  by (relation "measure (\<lambda>(points, target, low, high). high - low)") auto

declare searchLoop.simps [simp del]

definition interpolatePointAtDistance :: "TrackPoint list \<Rightarrow> real \<Rightarrow> Interp" where
  "interpolatePointAtDistance points targetDistanceM =
     (if length points = 0 then \<lparr>i_lat = 0, i_lon = 0, i_index = 0\<rparr>
      else if length points = 1
        then \<lparr>i_lat = lat (points ! 0), i_lon = lon (points ! 0), i_index = 0\<rparr>
      else
        (let maxDistance = distanceFromStartM (points ! (length points - 1));
             target = clamp targetDistanceM 0 (max maxDistance 0);
             low = searchLoop points target 0 (length points - 1);
             rightIndex = min (max low 1) (length points - 1);
             leftIndex = rightIndex - 1;
             left = points ! leftIndex;
             right = points ! rightIndex;
             span = max (distanceFromStartM right - distanceFromStartM left) 0.0001;
             t = clamp ((target - distanceFromStartM left) / span) 0 1
         in \<lparr>i_lat = lerp (lat left) (lat right) t,
             i_lon = lerp (lon left) (lon right) t,
             i_index = leftIndex\<rparr>))"

section \<open>The resampler\<close>

text \<open>
  \<^verbatim>\<open>buildPlaybackPoints(points, maxPoints = 1800)\<close>; the cap is a count, so it is a natural
  number here. The \<^verbatim>\<open>for\<close> loop pushes one sample for each \<open>i\<close> below \<open>targetCount\<close>.
\<close>

definition samplePoint :: "TrackPoint list \<Rightarrow> real \<Rightarrow> real \<Rightarrow> nat \<Rightarrow> TrackPoint" where
  "samplePoint points totalDistance interval i =
     (let targetDistance = min totalDistance (real i * interval);
          interp = interpolatePointAtDistance points targetDistance;
          nearest = (if i_index interp < length points then points ! i_index interp
                     else points ! 0)
      in \<lparr>lat = i_lat interp, lon = i_lon interp, ele = ele nearest, time = None,
          distanceFromStartM = targetDistance\<rparr>)"

definition buildPlaybackPoints :: "TrackPoint list \<Rightarrow> nat \<Rightarrow> TrackPoint list" where
  "buildPlaybackPoints points maxPoints =
     (if length points \<le> 2 \<or> length points \<le> maxPoints then points
      else
        (let totalDistance = max (distanceFromStartM (points ! (length points - 1))) 1;
             targetCount = max 300 maxPoints;
             interval = totalDistance / real (targetCount - 1)
         in map (samplePoint points totalDistance interval) [0..<targetCount]))"

text \<open>
  \<^verbatim>\<open>smoothPlaybackPoints(points, radius = 2)\<close>. The inner loop adds the weighted coordinates for
  \<open>j\<close> from \<open>-radius\<close> to \<open>radius\<close>; the three running sums are the three \<open>sum_list\<close>s.
\<close>

definition smoothAt :: "TrackPoint list \<Rightarrow> int \<Rightarrow> nat \<Rightarrow> TrackPoint" where
  "smoothAt points radius i =
     (let point = points ! i in
      if i = 0 \<or> i = length points - 1 then point
      else
        (let js = [- radius..radius];
             idx = (\<lambda>j. nat (min (max (int i + j) 0) (int (length points) - 1)));
             weight = (\<lambda>j. real_of_int (radius + 1 - \<bar>j\<bar>));
             latSum = sum_list (map (\<lambda>j. lat (points ! idx j) * weight j) js);
             lonSum = sum_list (map (\<lambda>j. lon (points ! idx j) * weight j) js);
             wSum = sum_list (map weight js)
         in point\<lparr>lat := latSum / wSum, lon := lonSum / wSum\<rparr>))"

definition smoothPlaybackPoints :: "TrackPoint list \<Rightarrow> int \<Rightarrow> TrackPoint list" where
  "smoothPlaybackPoints points radius =
     (if length points \<le> 4 \<or> radius \<le> 0 then points
      else map (smoothAt points radius) [0..<length points])"

text \<open>The playback sequence of a track, as the effect on \<^verbatim>\<open>selectedDetails\<close> builds it.\<close>

definition playbackSequence :: "TrackPoint list \<Rightarrow> nat \<Rightarrow> TrackPoint list" where
  "playbackSequence points maxPoints = smoothPlaybackPoints (buildPlaybackPoints points maxPoints) 2"

section \<open>The revealed route\<close>

text \<open>
  The coordinate list that \<^verbatim>\<open>drawRouteOverlay\<close> builds once its guards have passed. The loop
  over the playback points carries the previous point (\<open>None\<close> at index 0) and stops at the
  first point beyond the reveal distance. Coordinates are pairs \<open>(lon, lat)\<close>.
\<close>

fun revealLoop :: "TrackPoint option \<Rightarrow> TrackPoint list \<Rightarrow> real \<Rightarrow> (real \<times> real) list" where
  "revealLoop prev [] revealDistance = []"
| "revealLoop prev (point # rest) revealDistance =
     (if distanceFromStartM point \<le> revealDistance
      then (lon point, lat point) # revealLoop (Some point) rest revealDistance
      else (case prev of
              None \<Rightarrow> []
            | Some pv \<Rightarrow>
                (let span = max (distanceFromStartM point - distanceFromStartM pv) 0.0001;
                     t = clamp ((revealDistance - distanceFromStartM pv) / span) 0 1
                 in [(lerp (lon pv) (lon point) t, lerp (lat pv) (lat point) t)])))"

definition revealLonLat :: "TrackPoint list \<Rightarrow> real \<Rightarrow> (real \<times> real) list" where
  "revealLonLat playbackPoints progressRef =
     (let totalDistance =
            max (distanceFromStartM (playbackPoints ! (length playbackPoints - 1))) 1;
          revealDistance = clamp progressRef 0 1 * totalDistance;
          revealed = revealLoop None playbackPoints revealDistance;
          head = interpolatePointAtDistance playbackPoints revealDistance
      in if length revealed = 0 then [(i_lon head, i_lat head)]
         else if fst (last revealed) \<noteq> i_lon head \<or> snd (last revealed) \<noteq> i_lat head
           then revealed @ [(i_lon head, i_lat head)]
         else revealed)"

section \<open>The component state\<close>

datatype PlaybackState = Idle | Playing | Paused

datatype CameraPresetId = Cinematic | Balanced | Chase

text \<open>A camera preset; its \<^verbatim>\<open>id\<close> field is \<open>preset_id\<close> here and the display label is left out.\<close>

record CameraPreset =
  preset_id :: CameraPresetId
  lookaheadMeters :: real
  chaseMeters :: real
  pitch :: real
  zoomBase :: real
  zoomMin :: real
  zoomMax :: real
  bearingSmoothing :: real

definition cameraPresets :: "CameraPreset list" where
  "cameraPresets =
     [\<lparr>preset_id = Cinematic, lookaheadMeters = 320, chaseMeters = 135, pitch = 72,
       zoomBase = 13.6, zoomMin = 11.5, zoomMax = 14.2, bearingSmoothing = 0.14\<rparr>,
      \<lparr>preset_id = Balanced, lookaheadMeters = 250, chaseMeters = 105, pitch = 68,
       zoomBase = 13.8, zoomMin = 11.6, zoomMax = 14.3, bearingSmoothing = 0.16\<rparr>,
      \<lparr>preset_id = Chase, lookaheadMeters = 180, chaseMeters = 80, pitch = 62,
       zoomBase = 14.1, zoomMin = 11.8, zoomMax = 14.5, bearingSmoothing = 0.2\<rparr>]"

definition cameraPresetOf :: "CameraPresetId \<Rightarrow> CameraPreset" where
  "cameraPresetOf pid =
     (case find (\<lambda>preset. preset_id preset = pid) cameraPresets of
        Some preset \<Rightarrow> preset
      | None \<Rightarrow> cameraPresets ! 1)"

text \<open>The camera pose; the fields carry a prefix to keep them apart from those above.\<close>

record CameraState =
  cam_lon :: real
  cam_lat :: real
  cam_zoom :: real
  cam_bearing :: real
  cam_pitch :: real

text \<open>Of the track summary only the total distance is used by the engine.\<close>

record TrackDetails =
  points :: "TrackPoint list"
  distanceM :: real

text \<open>
  The state and the refs of the \<^verbatim>\<open>App\<close> component that the engine reads or writes.
  \<open>mapReady\<close> says that \<^verbatim>\<open>mapRef.current\<close> is set, and \<open>jumps\<close> records the poses handed to
  \<^verbatim>\<open>map.jumpTo\<close>, oldest first: the camera updates the engine has emitted. The canvas and the
  diagnostics are left out.
\<close>

record App =
  selectedDetails :: "TrackDetails option"
  mapReady :: bool
  playbackState :: PlaybackState
  progress :: real
  speed :: real
  zoomOffset :: real
  cameraPresetId :: CameraPresetId
  lastFrameMsRef :: "real option"
  lastUiFrameMsRef :: "real option"
  lastBearingRef :: "real option"
  progressRef :: real
  lastCameraUpdateMsRef :: real
  cameraStateRef :: "CameraState option"
  playbackPointsRef :: "TrackPoint list"
  hasPlayedRef :: bool
  jumps :: "CameraState list"

text \<open>The values of \<^verbatim>\<open>useState\<close> and \<^verbatim>\<open>useRef\<close> when the component mounts.\<close>

definition initialApp :: "bool \<Rightarrow> App" where
  "initialApp ready =
     \<lparr>selectedDetails = None, mapReady = ready, playbackState = Idle, progress = 0, speed = 2,
      zoomOffset = 0, cameraPresetId = Cinematic, lastFrameMsRef = None,
      lastUiFrameMsRef = None, lastBearingRef = None, progressRef = 0,
      lastCameraUpdateMsRef = 0, cameraStateRef = None, playbackPointsRef = [],
      hasPlayedRef = False, jumps = []\<rparr>"

text \<open>
  \<^verbatim>\<open>playbackPointsRef.current.length > 1 ? playbackPointsRef.current : details?.points ?? []\<close>
\<close>

definition effectivePoints :: "App \<Rightarrow> TrackPoint list" where
  "effectivePoints s =
     (if length (playbackPointsRef s) > 1 then playbackPointsRef s
      else (case selectedDetails s of None \<Rightarrow> [] | Some details \<Rightarrow> points details))"

section \<open>The camera update\<close>

text \<open>The bearing smoother: the function expression that computes \<^verbatim>\<open>smoothedBearing\<close>.\<close>

definition smoothBearing :: "real option \<Rightarrow> real \<Rightarrow> real \<Rightarrow> real" where
  "smoothBearing prevBearing rawBearing smoothing =
     (case prevBearing of
        None \<Rightarrow> rawBearing
      | Some prev \<Rightarrow>
          (let desired = js_mod (prev + shortestAngleDiff prev rawBearing * smoothing + 360) 360;
               turnStep = clamp (shortestAngleDiff prev desired) (- 2.5) 2.5
           in js_mod (prev + turnStep + 360) 360))"

text \<open>The raw bearing, with its guard for a lookahead point that is closer than 5 metres.\<close>

definition rawBearingOf :: "real option \<Rightarrow> Interp \<Rightarrow> Interp \<Rightarrow> real" where
  "rawBearingOf lastBearing current lookahead =
     (let lookLon = i_lon lookahead;
          lookLat = i_lat lookahead;
          camLon = i_lon current;
          camLat = i_lat current;
          lookDistance = haversineMeters camLat camLon lookLat lookLon
      in case lastBearing of
           Some b \<Rightarrow> if lookDistance < 5 then b else bearingDeg camLat camLon lookLat lookLon
         | None \<Rightarrow> bearingDeg camLat camLon lookLat lookLon)"

text \<open>The blend of the previous pose into the desired one, or the snap when there is none.\<close>

definition blendCamera ::
  "CameraState option \<Rightarrow> real \<Rightarrow> real \<Rightarrow> real \<Rightarrow> real \<Rightarrow> real \<Rightarrow> real \<Rightarrow> CameraState" where
  "blendCamera prevCamera desiredLon desiredLat zoom smoothedBearing desiredPitch follow =
     (case prevCamera of
        Some prev \<Rightarrow>
          \<lparr>cam_lon = lerp (cam_lon prev) desiredLon follow,
           cam_lat = lerp (cam_lat prev) desiredLat follow,
           cam_zoom = lerp (cam_zoom prev) zoom follow,
           cam_bearing =
             js_mod (cam_bearing prev
                     + shortestAngleDiff (cam_bearing prev) smoothedBearing * follow + 360) 360,
           cam_pitch = lerp (cam_pitch prev) desiredPitch follow\<rparr>
      | None \<Rightarrow>
          \<lparr>cam_lon = desiredLon, cam_lat = desiredLat, cam_zoom = zoom,
           cam_bearing = smoothedBearing, cam_pitch = desiredPitch\<rparr>)"

text \<open>
  \<^verbatim>\<open>updateCameraAtProgress(value, nowMs = performance.now(), force = false)\<close>, with the clock
  reading as an argument. The two early returns leave the state as it is.
\<close>

definition updateCameraAtProgress :: "real \<Rightarrow> real \<Rightarrow> bool \<Rightarrow> App \<Rightarrow> App" where
  "updateCameraAtProgress v nowMs force s =
     (let playbackPoints = effectivePoints s in
      if selectedDetails s = None \<or> \<not> mapReady s \<or> length playbackPoints < 2 then s
      else if \<not> force \<and> nowMs - lastCameraUpdateMsRef s < 16 then s
      else
        (let cameraPreset = cameraPresetOf (cameraPresetId s);
             totalDistance =
               max (distanceFromStartM (playbackPoints ! (length playbackPoints - 1))) 1;
             targetDistance = clamp v 0 1 * totalDistance;
             lookaheadDistance = lookaheadMeters cameraPreset;
             chaseDistance = chaseMeters cameraPreset;
             current = interpolatePointAtDistance playbackPoints targetDistance;
             lookahead =
               interpolatePointAtDistance playbackPoints (targetDistance + lookaheadDistance);
             behind = interpolatePointAtDistance playbackPoints (targetDistance - chaseDistance);
             rawBearing = rawBearingOf (lastBearingRef s) current lookahead;
             prevBearing = lastBearingRef s;
             smoothedBearing = smoothBearing prevBearing rawBearing (bearingSmoothing cameraPreset);
             zoom = clamp (zoomBase cameraPreset + zoomOffset s) (zoomMin cameraPreset)
                      (zoomMax cameraPreset);
             desiredLon = lerp (i_lon current) (i_lon behind) 0.74;
             desiredLat = lerp (i_lat current) (i_lat behind) 0.74;
             desiredPitch = pitch cameraPreset;
             follow = (if playbackState s = Playing then 0.14 else 0.28);
             smoothedCamera =
               blendCamera (cameraStateRef s) desiredLon desiredLat zoom smoothedBearing
                 desiredPitch follow
         in s\<lparr>lastCameraUpdateMsRef := nowMs,
              lastBearingRef := Some smoothedBearing,
              cameraStateRef := Some smoothedCamera,
              jumps := jumps s @ [smoothedCamera]\<rparr>))"

section \<open>Commands\<close>

text \<open>
  The handlers take the reading of \<^verbatim>\<open>performance.now()\<close> as an argument. Inside a handler the
  React state is the one of the last render, so \<^verbatim>\<open>progress\<close> in \<^verbatim>\<open>togglePlay\<close> is the value from
  before the handler ran.
\<close>

definition togglePlay :: "real \<Rightarrow> App \<Rightarrow> App" where
  "togglePlay nowMs s =
     (if selectedDetails s = None then s
      else if playbackState s = Playing then s\<lparr>playbackState := Paused\<rparr>
      else
        (let s1 = (if progress s \<ge> 1
                   then updateCameraAtProgress 0 nowMs True
                          (s\<lparr>progress := 0, progressRef := 0, lastBearingRef := None\<rparr>)
                   else s);
             s2 = (if progress s < 1 then s1\<lparr>progressRef := progress s\<rparr> else s1)
         in s2\<lparr>hasPlayedRef := True, playbackState := Playing\<rparr>))"

text \<open>\<^verbatim>\<open>onScrub\<close>; \<open>raw\<close> is the number read from the slider, between 0 and 100.\<close>

definition onScrub :: "real \<Rightarrow> real \<Rightarrow> App \<Rightarrow> App" where
  "onScrub raw nowMs s =
     (let next = raw / 100 in
      updateCameraAtProgress next nowMs True
        (s\<lparr>hasPlayedRef := (hasPlayedRef s \<or> next > 0), progress := next, progressRef := next\<rparr>))"

definition onZoomIn :: "App \<Rightarrow> App" where
  "onZoomIn s = s\<lparr>zoomOffset := clamp (zoomOffset s + 0.2) (- 1.5) 1.5\<rparr>"

definition onZoomOut :: "App \<Rightarrow> App" where
  "onZoomOut s = s\<lparr>zoomOffset := clamp (zoomOffset s - 0.2) (- 1.5) 1.5\<rparr>"

text \<open>The \<^verbatim>\<open>onChange\<close> handler of the preset selector.\<close>

definition onPresetChange :: "CameraPresetId \<Rightarrow> App \<Rightarrow> App" where
  "onPresetChange pid s = s\<lparr>lastBearingRef := None, cameraPresetId := pid\<rparr>"

text \<open>
  One animation frame. The callback exists only while the state is \<^verbatim>\<open>playing\<close> and a track is
  selected; otherwise the effect has cancelled it.
\<close>

definition tick :: "real \<Rightarrow> App \<Rightarrow> App" where
  "tick timestamp s =
     (if playbackState s \<noteq> Playing then s
      else case selectedDetails s of
        None \<Rightarrow> s
      | Some details \<Rightarrow>
          (let baseDurationMs = clamp (distanceM details * 6) 25000 150000;
               lastFrame = (case lastFrameMsRef s of None \<Rightarrow> timestamp | Some t \<Rightarrow> t);
               delta = timestamp - lastFrame;
               increment = delta / (baseDurationMs / speed s);
               next = clamp (progressRef s + increment) 0 1;
               s1 = updateCameraAtProgress next timestamp False
                      (s\<lparr>lastFrameMsRef := Some timestamp, progressRef := next\<rparr>);
               s2 = (if (case lastUiFrameMsRef s1 of None \<Rightarrow> True
                         | Some lastUiFrame \<Rightarrow> timestamp - lastUiFrame > 80) \<or> next \<ge> 1
                     then s1\<lparr>lastUiFrameMsRef := Some timestamp, progress := next\<rparr>
                     else s1)
           in if next \<ge> 1 then s2\<lparr>playbackState := Paused\<rparr> else s2))"

text \<open>
  The effects that run after a handler has changed the state: the playback effect drops the
  frame timestamps when one of its dependencies changed, and the effect on
  \<^verbatim>\<open>[zoomOffset, cameraPresetId]\<close> forces a camera update.
\<close>

definition runEffects :: "real \<Rightarrow> App \<Rightarrow> App \<Rightarrow> App" where
  "runEffects nowMs before s =
     (let s1 = (if playbackState s \<noteq> playbackState before \<or> speed s \<noteq> speed before
                   \<or> cameraPresetId s \<noteq> cameraPresetId before
                   \<or> zoomOffset s \<noteq> zoomOffset before
                then s\<lparr>lastFrameMsRef := None, lastUiFrameMsRef := None\<rparr>
                else s)
      in if (zoomOffset s \<noteq> zoomOffset before \<or> cameraPresetId s \<noteq> cameraPresetId before)
            \<and> selectedDetails s \<noteq> None
         then updateCameraAtProgress (progressRef s1) nowMs True s1
         else s1)"

datatype Command =
    TogglePlay real
  | Scrub real real
  | ZoomIn real
  | ZoomOut real
  | SelectPreset CameraPresetId real
  | SetSpeed real real
  | Tick real

fun handler :: "Command \<Rightarrow> App \<Rightarrow> App" where
  "handler (TogglePlay nowMs) s = togglePlay nowMs s"
| "handler (Scrub raw nowMs) s = onScrub raw nowMs s"
| "handler (ZoomIn nowMs) s = onZoomIn s"
| "handler (ZoomOut nowMs) s = onZoomOut s"
| "handler (SelectPreset pid nowMs) s = onPresetChange pid s"
| "handler (SetSpeed v nowMs) s = s\<lparr>speed := v\<rparr>"
| "handler (Tick timestamp) s = tick timestamp s"

fun clock :: "Command \<Rightarrow> real" where
  "clock (TogglePlay nowMs) = nowMs"
| "clock (Scrub raw nowMs) = nowMs"
| "clock (ZoomIn nowMs) = nowMs"
| "clock (ZoomOut nowMs) = nowMs"
| "clock (SelectPreset pid nowMs) = nowMs"
| "clock (SetSpeed v nowMs) = nowMs"
| "clock (Tick timestamp) = timestamp"

definition step :: "Command \<Rightarrow> App \<Rightarrow> App" where
  "step c s = runEffects (clock c) s (handler c s)"

fun run :: "Command list \<Rightarrow> App \<Rightarrow> App" where
  "run [] s = s"
| "run (c # cs) s = run cs (step c s)"

text \<open>
  Selecting a track: the effect on \<^verbatim>\<open>selectedTrackId\<close> resets the playback while the details
  are fetched; until they arrive \<^verbatim>\<open>selectedDetails\<close> still holds the previous track.
\<close>

definition trackSelected :: "App \<Rightarrow> App" where
  "trackSelected s =
     s\<lparr>playbackState := Idle, progress := 0, progressRef := 0, hasPlayedRef := False,
       lastBearingRef := None, cameraStateRef := None, lastFrameMsRef := None,
       lastUiFrameMsRef := None\<rparr>"

text \<open>
  The details have arrived: the effect on \<^verbatim>\<open>selectedDetails\<close> builds the playback sequence
  and, when the map exists, ends with the camera snap to the current progress.
\<close>

definition detailsLoaded :: "TrackDetails \<Rightarrow> real \<Rightarrow> App \<Rightarrow> App" where
  "detailsLoaded details nowMs s =
     (let s1 = s\<lparr>selectedDetails := Some details, lastFrameMsRef := None,
                 lastUiFrameMsRef := None\<rparr>;
          s2 = s1\<lparr>playbackPointsRef := playbackSequence (points details) 1800\<rparr>
      in if \<not> mapReady s2 then s2
         else updateCameraAtProgress (progressRef s2) nowMs False (s2\<lparr>lastBearingRef := None\<rparr>))"

text \<open>Both in a row: a track is selected and its details arrive before anything else happens.\<close>

definition trackLoaded :: "TrackDetails \<Rightarrow> real \<Rightarrow> App \<Rightarrow> App" where
  "trackLoaded details nowMs s = detailsLoaded details nowMs (trackSelected s)"


section \<open>Notions used in the statements\<close>


definition updateApplies :: "real \<Rightarrow> bool \<Rightarrow> App \<Rightarrow> bool" where
  "updateApplies nowMs force s =
     (selectedDetails s \<noteq> None \<and> mapReady s \<and> 2 \<le> length (effectivePoints s)
      \<and> (force \<or> \<not> nowMs - lastCameraUpdateMsRef s < 16))"

definition targetDistanceAt :: "App \<Rightarrow> real \<Rightarrow> real" where
  "targetDistanceAt s v =
     clamp v 0 1
     * max (distanceFromStartM (effectivePoints s ! (length (effectivePoints s) - 1))) 1"

definition rawBearingAt :: "App \<Rightarrow> real \<Rightarrow> real" where
  "rawBearingAt s v =
     rawBearingOf (lastBearingRef s)
       (interpolatePointAtDistance (effectivePoints s) (targetDistanceAt s v))
       (interpolatePointAtDistance (effectivePoints s)
          (targetDistanceAt s v + lookaheadMeters (cameraPresetOf (cameraPresetId s))))"

definition smoothedBearingAt :: "App \<Rightarrow> real \<Rightarrow> real" where
  "smoothedBearingAt s v =
     smoothBearing (lastBearingRef s) (rawBearingAt s v)
       (bearingSmoothing (cameraPresetOf (cameraPresetId s)))"

definition desiredLonAt :: "App \<Rightarrow> real \<Rightarrow> real" where
  "desiredLonAt s v =
     lerp (i_lon (interpolatePointAtDistance (effectivePoints s) (targetDistanceAt s v)))
       (i_lon (interpolatePointAtDistance (effectivePoints s)
                 (targetDistanceAt s v - chaseMeters (cameraPresetOf (cameraPresetId s)))))
       0.74"

definition desiredLatAt :: "App \<Rightarrow> real \<Rightarrow> real" where
  "desiredLatAt s v =
     lerp (i_lat (interpolatePointAtDistance (effectivePoints s) (targetDistanceAt s v)))
       (i_lat (interpolatePointAtDistance (effectivePoints s)
                 (targetDistanceAt s v - chaseMeters (cameraPresetOf (cameraPresetId s)))))
       0.74"

definition desiredZoomAt :: "App \<Rightarrow> real" where
  "desiredZoomAt s =
     clamp (zoomBase (cameraPresetOf (cameraPresetId s)) + zoomOffset s)
       (zoomMin (cameraPresetOf (cameraPresetId s))) (zoomMax (cameraPresetOf (cameraPresetId s)))"

definition followAt :: "App \<Rightarrow> real" where
  "followAt s = (if playbackState s = Playing then 0.14 else 0.28)"


text \<open>The resampler takes its second branch: more than two points and more than the cap.\<close>

definition resampled :: "TrackPoint list \<Rightarrow> nat \<Rightarrow> bool" where
  "resampled pts maxPoints = (2 < length pts \<and> maxPoints < length pts)"

text \<open>
  The values the second branch of \<^verbatim>\<open>buildPlaybackPoints\<close> works with: the total distance with
  its floor of one metre, and the target distance of sample \<open>i\<close>.
\<close>

definition totalDistanceOf :: "TrackPoint list \<Rightarrow> real" where
  "totalDistanceOf pts = max (distanceFromStartM (pts ! (length pts - 1))) 1"

definition targetOf :: "TrackPoint list \<Rightarrow> nat \<Rightarrow> nat \<Rightarrow> real" where
  "targetOf pts maxPoints i =
     min (totalDistanceOf pts)
       (real i * (totalDistanceOf pts / real (max 300 maxPoints - 1)))"

text \<open>
  In the words of the specification: the original sample nearest, in distance along the
  route, to a target distance (the first one when several are equally near).
\<close>

definition nearestSample :: "TrackPoint list \<Rightarrow> real \<Rightarrow> TrackPoint" where
  "nearestSample pts d = arg_min_list (\<lambda>p. \<bar>distanceFromStartM p - d\<bar>) pts"

section \<open>Sample inputs\<close>





text \<open>Three points along the equator, 1112 metres apart.\<close>

definition threePoints :: "TrackPoint list" where
  "threePoints =
     [\<lparr>lat = 0, lon = 0, ele = Some 5, time = None, distanceFromStartM = 0\<rparr>,
      \<lparr>lat = 0, lon = 0.01, ele = Some 8, time = None, distanceFromStartM = 1112\<rparr>,
      \<lparr>lat = 0, lon = 0.02, ele = Some 6, time = None, distanceFromStartM = 2224\<rparr>]"


text \<open>
  Tracks of 1801 points, one more than the cap of 1800. The recorder stands still at the
  origin for the first 1799 points (1801 in the first track) and then moves east.
\<close>

definition standingPoint :: TrackPoint where
  "standingPoint =
     \<lparr>lat = 0, lon = 0, ele = Some 100, time = Some ''2024-05-01T10:00:00Z'',
      distanceFromStartM = 0\<rparr>"


definition climbTrack :: "TrackPoint list" where
  "climbTrack =
     replicate 1799 standingPoint @
     [\<lparr>lat = 0, lon = 0.009, ele = Some 200, time = Some ''2024-05-01T10:40:00Z'',
       distanceFromStartM = 1000\<rparr>,
      \<lparr>lat = 0, lon = 0.0162, ele = Some 300, time = Some ''2024-05-01T10:55:00Z'',
       distanceFromStartM = 1799\<rparr>]"


text \<open>A track whose details hold a single point, and the state once it is loaded.\<close>

definition onePointTrack :: TrackDetails where
  "onePointTrack =
     \<lparr>points = [\<lparr>lat = 51.5, lon = - 0.12, ele = Some 20, time = None,
                  distanceFromStartM = 0\<rparr>],
      distanceM = 0\<rparr>"

definition onePointLoaded :: App where
  "onePointLoaded = trackLoaded onePointTrack 1000 (initialApp True)"

section \<open>Arithmetic of angles\<close>

lemma js_mod_nonneg:
  assumes "0 \<le> a" and "0 < b"
  shows "js_mod a b = a - b * of_int \<lfloor>a / b\<rfloor>" and "0 \<le> js_mod a b" and "js_mod a b < b"
proof -
  have q0: "0 \<le> a / b" using assms by simp
  then show e: "js_mod a b = a - b * of_int \<lfloor>a / b\<rfloor>"
    by (simp add: js_mod_def js_trunc_def)
  have "of_int \<lfloor>a / b\<rfloor> * b \<le> a"
    using assms(2) by (rule floor_divide_lower)
  then show "0 \<le> js_mod a b" by (simp add: e mult.commute)
  have "a < (of_int \<lfloor>a / b\<rfloor> + 1) * b"
    using assms(2) by (rule floor_divide_upper)
  then show "js_mod a b < b" by (simp add: e algebra_simps)
qed


lemma sad_range:
  assumes "- 540 \<le> to - from"
  shows "- 180 \<le> shortestAngleDiff from to" and "shortestAngleDiff from to < 180"
    and "\<exists>k::int. shortestAngleDiff from to = to - from + 360 * of_int k"
proof -
  have a: "0 \<le> to - from + 540" using assms by simp
  have b: "(0::real) < 360" by simp
  show "- 180 \<le> shortestAngleDiff from to"
    using js_mod_nonneg(2)[OF a b] by (simp add: shortestAngleDiff_def)
  show "shortestAngleDiff from to < 180"
    using js_mod_nonneg(3)[OF a b] by (simp add: shortestAngleDiff_def)
  have "shortestAngleDiff from to = to - from + 360 * of_int (1 - \<lfloor>(to - from + 540) / 360\<rfloor>)"
    using js_mod_nonneg(1)[OF a b] by (simp add: shortestAngleDiff_def)
  then show "\<exists>k::int. shortestAngleDiff from to = to - from + 360 * of_int k" by blast
qed







section \<open>The angle difference\<close>

text \<open>
  Claim C7, as amended. For angles \<open>a\<close> (from) and \<open>b\<close> (to) with \<open>b - a \<ge> -540\<close>, which holds
  for all bearings in \<open>[0, 360)\<close>, \<open>shortestAngleDiff a b\<close> differs from \<open>b - a\<close> by a multiple
  of 360 and lies in the half-open interval \<open>[-180, 180)\<close>: a half turn is reported as
  \<open>-180\<close>, never as \<open>180\<close>. The two values of the specification hold:
  \<open>shortestAngleDiff 350 10 = 20\<close> and \<open>shortestAngleDiff 10 350 = -20\<close>.
\<close>

theorem shortestAngleDiff_half_open:
  "- 540 \<le> b - a \<Longrightarrow>
     - 180 \<le> shortestAngleDiff a b \<and> shortestAngleDiff a b < 180
     \<and> (\<exists>k::int. shortestAngleDiff a b = b - a + 360 * of_int k)
     \<and> shortestAngleDiff 350 10 = 20 \<and> shortestAngleDiff 10 350 = - 20"
proof -
  assume h: "- 540 \<le> b - a"
  have "shortestAngleDiff 350 10 = 20" "shortestAngleDiff 10 350 = - 20"
    by (simp_all add: shortestAngleDiff_def js_mod_def js_trunc_def)
  with sad_range[OF h] show ?thesis by blast
qed

theorem shortestAngleDiff_half_open_witness:
  "- 540 \<le> (45::real) - 90 \<and> - 180 \<le> shortestAngleDiff 90 45 \<and> shortestAngleDiff 90 45 < 180"
  using shortestAngleDiff_half_open [of 45 90] by simp

text \<open>
  The interval \<open>(-180, 180]\<close> of claim C7 does not hold: from 0 to 180 the result is \<open>-180\<close>.
\<close>

theorem shortestAngleDiff_interval_counterexample:
  "shortestAngleDiff 0 180 = - 180
   \<and> \<not> (- 180 < shortestAngleDiff 0 180 \<and> shortestAngleDiff 0 180 \<le> 180)"
  by (simp add: shortestAngleDiff_def js_mod_def js_trunc_def)

section \<open>The distance lookup\<close>

lemma searchLoop_spec:
  assumes "sorted (map distanceFromStartM pts)"
    and "low \<le> high" and "high < length pts"
    and "\<forall>i<low. distanceFromStartM (pts ! i) < target"
    and "target \<le> distanceFromStartM (pts ! high)"
  shows "low \<le> searchLoop pts target low high \<and> searchLoop pts target low high \<le> high
     \<and> target \<le> distanceFromStartM (pts ! searchLoop pts target low high)
     \<and> (\<forall>i<searchLoop pts target low high. distanceFromStartM (pts ! i) < target)"
  using assms
proof (induction pts target low high rule: searchLoop.induct)
  case (1 points target low high)
  show ?case
  proof (cases "low < high")
    case False
    with "1.prems" have "low = high" by simp
    with False "1.prems" show ?thesis by (simp add: searchLoop.simps[of points target high high])
  next
    case True
    define mid where "mid = (low + high) div 2"
    have m: "low \<le> mid" "mid < high" using True by (simp_all add: mid_def)
    show ?thesis
    proof (cases "distanceFromStartM (points ! mid) < target")
      case lt: True
      have e: "searchLoop points target low high = searchLoop points target (mid + 1) high"
        using True lt by (subst searchLoop.simps) (simp add: mid_def Let_def)
      have below: "\<forall>i<mid + 1. distanceFromStartM (points ! i) < target"
      proof (intro allI impI)
        fix i assume "i < mid + 1"
        then have "i \<le> mid" by simp
        moreover have "mid < length points" using m "1.prems" by simp
        ultimately have "distanceFromStartM (points ! i) \<le> distanceFromStartM (points ! mid)"
          using "1.prems"(1) by (simp add: sorted_iff_nth_mono)
        with lt show "distanceFromStartM (points ! i) < target" by simp
      qed
      have "mid + 1 \<le> searchLoop points target (mid + 1) high
          \<and> searchLoop points target (mid + 1) high \<le> high
          \<and> target \<le> distanceFromStartM (points ! searchLoop points target (mid + 1) high)
          \<and> (\<forall>i<searchLoop points target (mid + 1) high. distanceFromStartM (points ! i) < target)"
        using "1.IH"(1)[OF True mid_def lt "1.prems"(1) _ "1.prems"(3) below "1.prems"(5)] m
        by simp
      then show ?thesis unfolding e using m by simp
    next
      case ge: False
      have e: "searchLoop points target low high = searchLoop points target low mid"
        using True ge by (subst searchLoop.simps) (simp add: mid_def Let_def)
      have "low \<le> searchLoop points target low mid
          \<and> searchLoop points target low mid \<le> mid
          \<and> target \<le> distanceFromStartM (points ! searchLoop points target low mid)
          \<and> (\<forall>i<searchLoop points target low mid. distanceFromStartM (points ! i) < target)"
        using "1.IH"(2)[OF True mid_def ge "1.prems"(1) m(1) _ "1.prems"(4)] m "1.prems"(3) ge
        by simp
      then show ?thesis unfolding e using m by simp
    qed
  qed
qed

lemma sorted_dist_mono:
  "sorted (map distanceFromStartM pts) \<Longrightarrow> i \<le> j \<Longrightarrow> j < length pts \<Longrightarrow>
     distanceFromStartM (pts ! i) \<le> distanceFromStartM (pts ! j)"
  by (simp add: sorted_iff_nth_mono)

lemma search_from_zero:
  assumes "sorted (map distanceFromStartM pts)" and "pts \<noteq> []"
    and "target \<le> distanceFromStartM (pts ! (length pts - 1))"
  shows "searchLoop pts target 0 (length pts - 1) \<le> length pts - 1
     \<and> target \<le> distanceFromStartM (pts ! searchLoop pts target 0 (length pts - 1))
     \<and> (\<forall>i<searchLoop pts target 0 (length pts - 1). distanceFromStartM (pts ! i) < target)"
  using searchLoop_spec[OF assms(1), of 0 "length pts - 1" target] assms(2,3) by simp

lemma search_segment:
  assumes "sorted (map distanceFromStartM pts)" and "k + 1 < length pts"
    and "distanceFromStartM (pts ! k) < target" and "target \<le> distanceFromStartM (pts ! (k + 1))"
  shows "searchLoop pts target 0 (length pts - 1) = k + 1"
proof -
  let ?r = "searchLoop pts target 0 (length pts - 1)"
  have ne: "pts \<noteq> []" using assms(2) by auto
  have "distanceFromStartM (pts ! (k + 1)) \<le> distanceFromStartM (pts ! (length pts - 1))"
    using assms(1,2) by (intro sorted_dist_mono) simp_all
  with assms(4) have top: "target \<le> distanceFromStartM (pts ! (length pts - 1))" by simp
  note r = search_from_zero[OF assms(1) ne top]
  have "\<not> k + 1 < ?r"
  proof
    assume "k + 1 < ?r"
    with r have "distanceFromStartM (pts ! (k + 1)) < target" by blast
    with assms(4) show False by simp
  qed
  moreover have "\<not> ?r \<le> k"
  proof
    assume a: "?r \<le> k"
    have "distanceFromStartM (pts ! ?r) \<le> distanceFromStartM (pts ! k)"
      using assms(1,2) a by (intro sorted_dist_mono) simp_all
    with r assms(3) show False by simp
  qed
  ultimately show ?thesis by simp
qed

lemma search_low:
  assumes "sorted (map distanceFromStartM pts)" and "pts \<noteq> []"
    and "target \<le> distanceFromStartM (pts ! 0)"
  shows "searchLoop pts target 0 (length pts - 1) = 0"
proof -
  let ?r = "searchLoop pts target 0 (length pts - 1)"
  have "distanceFromStartM (pts ! 0) \<le> distanceFromStartM (pts ! (length pts - 1))"
    using assms(1,2) by (intro sorted_dist_mono) simp_all
  with assms(3) have top: "target \<le> distanceFromStartM (pts ! (length pts - 1))" by simp
  note r = search_from_zero[OF assms(1,2) top]
  have "\<not> 0 < ?r"
  proof
    assume "0 < ?r"
    with r have "distanceFromStartM (pts ! 0) < target" by blast
    with assms(3) show False by simp
  qed
  then show ?thesis by simp
qed


lemma interp_segment:
  assumes "sorted (map distanceFromStartM pts)" and "k + 1 < length pts"
    and "distanceFromStartM (pts ! k) < target" and "target \<le> distanceFromStartM (pts ! (k + 1))"
    and "0 \<le> target"
  shows "interpolatePointAtDistance pts target =
     \<lparr>i_lat = lerp (lat (pts ! k)) (lat (pts ! (k + 1)))
               (clamp ((target - distanceFromStartM (pts ! k))
                       / max (distanceFromStartM (pts ! (k + 1)) - distanceFromStartM (pts ! k))
                           0.0001) 0 1),
      i_lon = lerp (lon (pts ! k)) (lon (pts ! (k + 1)))
               (clamp ((target - distanceFromStartM (pts ! k))
                       / max (distanceFromStartM (pts ! (k + 1)) - distanceFromStartM (pts ! k))
                           0.0001) 0 1),
      i_index = k\<rparr>"
proof -
  have "distanceFromStartM (pts ! (k + 1)) \<le> distanceFromStartM (pts ! (length pts - 1))"
    using assms(1,2) by (intro sorted_dist_mono) simp_all
  with assms(4,5) have c: "clamp target 0 (max (distanceFromStartM (pts ! (length pts - 1))) 0) = target"
    by (simp add: clamp_def)
  have r: "searchLoop pts target 0 (length pts - 1) = k + 1"
    by (rule search_segment[OF assms(1-4)])
  have m: "min (max (k + 1) 1) (length pts - 1) = k + 1" using assms(2) by simp
  have n: "length pts \<noteq> 0" "length pts \<noteq> 1" using assms(2) by auto
  show ?thesis
    unfolding interpolatePointAtDistance_def Let_def c r m using n by simp
qed

lemma interp_low:
  assumes "sorted (map distanceFromStartM pts)" and "2 \<le> length pts"
    and "target \<le> distanceFromStartM (pts ! 0)" and "0 \<le> target"
  shows "interpolatePointAtDistance pts target =
     \<lparr>i_lat = lat (pts ! 0), i_lon = lon (pts ! 0), i_index = 0\<rparr>"
proof -
  have ne: "pts \<noteq> []" using assms(2) by auto
  have "distanceFromStartM (pts ! 0) \<le> distanceFromStartM (pts ! (length pts - 1))"
    using assms(1,2) by (intro sorted_dist_mono) simp_all
  with assms(3,4) have c: "clamp target 0 (max (distanceFromStartM (pts ! (length pts - 1))) 0) = target"
    by (simp add: clamp_def)
  have r: "searchLoop pts target 0 (length pts - 1) = 0"
    by (rule search_low[OF assms(1) ne assms(3)])
  have m: "min (max 0 1) (length pts - 1) = (1::nat)" using assms(2) by simp
  have n: "length pts \<noteq> 0" "length pts \<noteq> 1" using assms(2) by auto
  have t: "clamp ((target - distanceFromStartM (pts ! 0))
                  / max (distanceFromStartM (pts ! 1) - distanceFromStartM (pts ! 0)) 0.0001) 0 1 = 0"
  proof -
    have "(target - distanceFromStartM (pts ! 0))
            / max (distanceFromStartM (pts ! 1) - distanceFromStartM (pts ! 0)) 0.0001 \<le> 0"
      using assms(3) by (intro divide_nonpos_pos) simp_all
    then show ?thesis by (simp add: clamp_def)
  qed
  show ?thesis
    unfolding interpolatePointAtDistance_def Let_def c r m using n t by (simp add: lerp_def)
qed


lemma interp_first:
  assumes "sorted (map distanceFromStartM pts)" and "2 \<le> length pts"
    and "distanceFromStartM (pts ! 0) = 0"
  shows "interpolatePointAtDistance pts 0 =
     \<lparr>i_lat = lat (pts ! 0), i_lon = lon (pts ! 0), i_index = 0\<rparr>"
  using interp_low[OF assms(1,2), of 0] assms(3) by simp





section \<open>The resampler, step by step\<close>


lemma build_resampled:
  "resampled pts n \<Longrightarrow>
     buildPlaybackPoints pts n =
       map (samplePoint pts (totalDistanceOf pts)
              (totalDistanceOf pts / real (max 300 n - 1))) [0..<max 300 n]"
  by (auto simp: resampled_def buildPlaybackPoints_def totalDistanceOf_def Let_def)


lemma build_nth:
  assumes "resampled pts n" and "i < max 300 n"
  shows "buildPlaybackPoints pts n ! i =
     samplePoint pts (totalDistanceOf pts) (totalDistanceOf pts / real (max 300 n - 1)) i"
  using assms by (simp add: build_resampled)

lemma samplePoint_fields:
  "time (samplePoint pts tot interval i) = None"
  "distanceFromStartM (samplePoint pts tot interval i) = min tot (real i * interval)"
  "lat (samplePoint pts tot interval i)
     = i_lat (interpolatePointAtDistance pts (min tot (real i * interval)))"
  "lon (samplePoint pts tot interval i)
     = i_lon (interpolatePointAtDistance pts (min tot (real i * interval)))"
  "ele (samplePoint pts tot interval i)
     = ele (if i_index (interpolatePointAtDistance pts (min tot (real i * interval)))
              < length pts
            then pts ! i_index (interpolatePointAtDistance pts (min tot (real i * interval)))
            else pts ! 0)"
  by (simp_all add: samplePoint_def Let_def)

lemma target_first: "targetOf pts n 0 = 0"
  by (simp add: targetOf_def totalDistanceOf_def)

lemma target_last: "targetOf pts n (max 300 n - 1) = totalDistanceOf pts"
  by (simp add: targetOf_def)

lemma interp_index_bound:
  "2 \<le> length pts \<Longrightarrow> i_index (interpolatePointAtDistance pts d) + 1 < length pts"
proof -
  assume n: "2 \<le> length pts"
  have b: "min (max r 1) (length pts - 1) - 1 + 1 < length pts" for r :: nat
    using n by (auto simp: min_def max_def)
  have c: "(length pts = 0) = False" "(length pts = 1) = False" using n by auto
  show ?thesis
    unfolding interpolatePointAtDistance_def Let_def c if_False using b by simp
qed


section \<open>The smoothing pass\<close>


lemma smoothAt_fields:
  "distanceFromStartM (smoothAt pts r i) = distanceFromStartM (pts ! i)"
  "ele (smoothAt pts r i) = ele (pts ! i)"
  "time (smoothAt pts r i) = time (pts ! i)"
  by (simp_all add: smoothAt_def Let_def)


lemma smooth_nth_fields:
  assumes "i < length pts"
  shows "distanceFromStartM (smoothPlaybackPoints pts r ! i) = distanceFromStartM (pts ! i)"
    and "ele (smoothPlaybackPoints pts r ! i) = ele (pts ! i)"
    and "time (smoothPlaybackPoints pts r ! i) = time (pts ! i)"
  using assms by (simp_all add: smoothPlaybackPoints_def smoothAt_fields)



section \<open>The playback sequence\<close>











section \<open>The sample tracks\<close>


lemma climb_facts:
  "resampled climbTrack 1800"
  "length climbTrack = 1801"
  "climbTrack \<noteq> []"
  "sorted (map distanceFromStartM climbTrack)"
  "distanceFromStartM (hd climbTrack) = 0"
  "last climbTrack = \<lparr>lat = 0, lon = 0.0162, ele = Some 300,
      time = Some ''2024-05-01T10:55:00Z'', distanceFromStartM = 1799\<rparr>"
  "climbTrack ! 1798 = standingPoint"
  "climbTrack ! 1799 = \<lparr>lat = 0, lon = 0.009, ele = Some 200,
      time = Some ''2024-05-01T10:40:00Z'', distanceFromStartM = 1000\<rparr>"
  "climbTrack ! 1800 = \<lparr>lat = 0, lon = 0.0162, ele = Some 300,
      time = Some ''2024-05-01T10:55:00Z'', distanceFromStartM = 1799\<rparr>"
  by (simp_all add: climbTrack_def resampled_def standingPoint_def nth_append sorted_append)




section \<open>Elevation and time of a resampled point\<close>

lemma interp_index_eq:
  assumes "2 \<le> length pts"
  shows "i_index (interpolatePointAtDistance pts d)
         = min (max (searchLoop pts
                       (clamp d 0 (max (distanceFromStartM (pts ! (length pts - 1))) 0))
                       0 (length pts - 1)) 1) (length pts - 1) - 1"
proof -
  have c: "(length pts = 0) = False" "(length pts = 1) = False" using assms by auto
  show ?thesis
    unfolding interpolatePointAtDistance_def Let_def c if_False by simp
qed

lemma interp_bracket:
  assumes "sorted (map distanceFromStartM pts)" and "2 \<le> length pts"
    and "distanceFromStartM (pts ! 0) = 0" and "0 \<le> d"
  shows "distanceFromStartM (pts ! i_index (interpolatePointAtDistance pts d))
           \<le> min d (distanceFromStartM (pts ! (length pts - 1)))"
    and "min d (distanceFromStartM (pts ! (length pts - 1)))
           \<le> distanceFromStartM (pts ! (i_index (interpolatePointAtDistance pts d) + 1))"
proof -
  let ?m = "distanceFromStartM (pts ! (length pts - 1))"
  let ?c = "min d ?m"
  let ?r = "searchLoop pts ?c 0 (length pts - 1)"
  have ne: "pts \<noteq> []" using assms(2) by auto
  have m0: "0 \<le> ?m"
    using sorted_dist_mono[OF assms(1), of 0 "length pts - 1"] assms(2,3) by simp
  have c: "clamp d 0 (max ?m 0) = ?c" using m0 assms(4) by (simp add: clamp_def)
  have c0: "0 \<le> ?c" using m0 assms(4) by simp
  have top: "?c \<le> ?m" by simp
  note r = search_from_zero[OF assms(1) ne top]
  have k: "i_index (interpolatePointAtDistance pts d) = min (max ?r 1) (length pts - 1) - 1"
    unfolding interp_index_eq[OF assms(2)] c by (rule refl)
  show "distanceFromStartM (pts ! i_index (interpolatePointAtDistance pts d)) \<le> ?c"
  proof (cases "?r = 0")
    case True
    then have "i_index (interpolatePointAtDistance pts d) = 0" using k assms(2) by simp
    then show ?thesis using assms(3) c0 by simp
  next
    case False
    then have i: "i_index (interpolatePointAtDistance pts d) = ?r - 1" using k r by simp
    have "?r - 1 < ?r" using False by simp
    with r have "distanceFromStartM (pts ! (?r - 1)) < ?c" by blast
    then show ?thesis unfolding i by simp
  qed
  show "?c \<le> distanceFromStartM (pts ! (i_index (interpolatePointAtDistance pts d) + 1))"
  proof (cases "?r = 0")
    case True
    then have i: "i_index (interpolatePointAtDistance pts d) + 1 = 1" using k assms(2) by simp
    have "distanceFromStartM (pts ! 0) \<le> distanceFromStartM (pts ! 1)"
      using assms(1,2) by (intro sorted_dist_mono) simp_all
    moreover have "?c \<le> distanceFromStartM (pts ! 0)" using r True by simp
    ultimately show ?thesis unfolding i by simp
  next
    case False
    then have i: "i_index (interpolatePointAtDistance pts d) + 1 = ?r" using k r by simp
    show ?thesis unfolding i using r by blast
  qed
qed

lemma target_nonneg: "0 \<le> targetOf pts n i"
  by (simp add: targetOf_def totalDistanceOf_def)

lemma playback_nth_fields:
  assumes "resampled pts n" and "i < max 300 n"
  shows "time (playbackSequence pts n ! i) = None"
    and "distanceFromStartM (playbackSequence pts n ! i) = targetOf pts n i"
    and "ele (playbackSequence pts n ! i)
         = ele (pts ! i_index (interpolatePointAtDistance pts (targetOf pts n i)))"
proof -
  have len: "i < length (buildPlaybackPoints pts n)"
    using assms by (simp add: build_resampled)
  have n2: "2 \<le> length pts" using assms(1) by (simp add: resampled_def)
  have b: "i_index (interpolatePointAtDistance pts (targetOf pts n i)) < length pts"
    using interp_index_bound[OF n2, of "targetOf pts n i"] by simp
  show "time (playbackSequence pts n ! i) = None"
    unfolding playbackSequence_def smooth_nth_fields(3)[OF len] build_nth[OF assms]
    by (simp add: samplePoint_fields)
  show "distanceFromStartM (playbackSequence pts n ! i) = targetOf pts n i"
    unfolding playbackSequence_def smooth_nth_fields(1)[OF len] build_nth[OF assms]
    by (simp add: samplePoint_fields targetOf_def)
  show "ele (playbackSequence pts n ! i)
         = ele (pts ! i_index (interpolatePointAtDistance pts (targetOf pts n i)))"
    unfolding playbackSequence_def smooth_nth_fields(2)[OF len] build_nth[OF assms]
    using b by (simp add: samplePoint_fields targetOf_def)
qed

text \<open>
  Claim C8, as amended. When the resampler samples point \<open>i\<close> at its target distance, the
  timestamp of the output point is null and its elevation is that of the original sample at
  the index the lookup returns: the left end of the segment that contains the target (the
  target clamped to the total length lies between the distances of that sample and of the
  next one). Smoothing changes neither field.
\<close>

theorem resampled_elevation_and_time:
  "resampled pts n \<Longrightarrow> i < max 300 n \<Longrightarrow>
     time (playbackSequence pts n ! i) = None
     \<and> distanceFromStartM (playbackSequence pts n ! i) = targetOf pts n i
     \<and> i_index (interpolatePointAtDistance pts (targetOf pts n i)) + 1 < length pts
     \<and> ele (playbackSequence pts n ! i)
         = ele (pts ! i_index (interpolatePointAtDistance pts (targetOf pts n i)))
     \<and> (sorted (map distanceFromStartM pts) \<and> distanceFromStartM (hd pts) = 0 \<longrightarrow>
          distanceFromStartM (pts ! i_index (interpolatePointAtDistance pts (targetOf pts n i)))
            \<le> min (targetOf pts n i) (distanceFromStartM (last pts))
          \<and> min (targetOf pts n i) (distanceFromStartM (last pts))
            \<le> distanceFromStartM
                 (pts ! (i_index (interpolatePointAtDistance pts (targetOf pts n i)) + 1)))"
proof -
  assume r: "resampled pts n" and i: "i < max 300 n"
  have n2: "2 \<le> length pts" using r by (simp add: resampled_def)
  have ne: "pts \<noteq> []" using n2 by auto
  have h: "hd pts = pts ! 0" using ne by (simp add: hd_conv_nth)
  have l: "last pts = pts ! (length pts - 1)" using ne by (simp add: last_conv_nth)
  show ?thesis
    using playback_nth_fields[OF r i] interp_index_bound[OF n2, of "targetOf pts n i"]
      interp_bracket[OF _ n2 _ target_nonneg[of pts n i]]
    by (simp add: h l)
qed

lemma arg_min_after_replicate:
  assumes "ys \<noteq> []" and "f (arg_min_list f ys) < f a"
  shows "arg_min_list f (replicate k a @ ys) = arg_min_list f ys"
proof (induction k)
  case 0
  show ?case by simp
next
  case (Suc k)
  obtain z zs where e: "replicate k a @ ys = z # zs"
    using assms(1) by (cases "replicate k a @ ys") auto
  have "arg_min_list f (a # z # zs) = arg_min_list f ys"
    using Suc assms(2) by (auto simp: e Let_def)
  then show ?case by (simp add: e)
qed

lemma climb_nearest:
  "nearestSample climbTrack 999 = \<lparr>lat = 0, lon = 0.009, ele = Some 200,
      time = Some ''2024-05-01T10:40:00Z'', distanceFromStartM = 1000\<rparr>"
  unfolding nearestSample_def climbTrack_def
  by (subst arg_min_after_replicate) (simp_all add: standingPoint_def Let_def)

text \<open>
  On the climb track the sample 999 of the playback sequence has target distance 999, no
  timestamp, and the elevation of the original point at index 1798, which is 100.
\<close>

theorem resampled_elevation_and_time_witness:
  "time (playbackSequence climbTrack 1800 ! 999) = None
   \<and> distanceFromStartM (playbackSequence climbTrack 1800 ! 999) = 999
   \<and> ele (playbackSequence climbTrack 1800 ! 999) = Some 100
   \<and> i_index (interpolatePointAtDistance climbTrack 999) = 1798
   \<and> distanceFromStartM (climbTrack ! 1798) = 0
   \<and> distanceFromStartM (climbTrack ! 1799) = 1000"
proof -
  have t: "targetOf climbTrack 1800 999 = 999"
    by (simp add: targetOf_def totalDistanceOf_def climb_facts)
  have i: "i_index (interpolatePointAtDistance climbTrack 999) = 1798"
    using interp_segment[OF climb_facts(4), of 1798 999]
    by (simp add: climb_facts standingPoint_def)
  show ?thesis
    using resampled_elevation_and_time [OF climb_facts(1), of 999]
    by (simp add: t i climb_facts standingPoint_def)
qed

text \<open>
  Claim C8 as stated fails for the elevation: that sample lies one metre before the original
  point at 1000 metres, the nearest one, whose elevation is 200, but it carries the elevation
  100 of the point at the start of the segment, 999 metres away.
\<close>

theorem nearest_elevation_counterexample:
  "distanceFromStartM (playbackSequence climbTrack 1800 ! 999) = 999
   \<and> ele (playbackSequence climbTrack 1800 ! 999) = Some 100
   \<and> distanceFromStartM (nearestSample climbTrack 999) = 1000
   \<and> ele (nearestSample climbTrack 999) = Some 200"
proof -
  have r: "resampled climbTrack 1800" by (rule climb_facts(1))
  have t: "targetOf climbTrack 1800 999 = 999"
    by (simp add: targetOf_def totalDistanceOf_def climb_facts)
  have i: "i_index (interpolatePointAtDistance climbTrack 999) = 1798"
    using interp_segment[OF climb_facts(4), of 1798 999]
    by (simp add: climb_facts standingPoint_def)
  have "distanceFromStartM (playbackSequence climbTrack 1800 ! 999) = 999"
    using playback_nth_fields(2)[OF r, of 999] by (simp add: t)
  moreover have "ele (playbackSequence climbTrack 1800 ! 999) = Some 100"
    using playback_nth_fields(3)[OF r, of 999] by (simp add: t i climb_facts standingPoint_def)
  ultimately show ?thesis by (simp add: climb_nearest)
qed

section \<open>The revealed route, evaluated\<close>

lemma last_revealLonLat:
  "last (revealLonLat pts p) =
     (i_lon (interpolatePointAtDistance pts
               (clamp p 0 1 * max (distanceFromStartM (pts ! (length pts - 1))) 1)),
      i_lat (interpolatePointAtDistance pts
               (clamp p 0 1 * max (distanceFromStartM (pts ! (length pts - 1))) 1)))"
  by (auto simp: revealLonLat_def Let_def prod_eq_iff)

lemma threePoints_head:
  "interpolatePointAtDistance threePoints 1112 = \<lparr>i_lat = 0, i_lon = 0.01, i_index = 0\<rparr>"
  using interp_segment[of threePoints 0 1112]
  by (simp add: threePoints_def clamp_def lerp_def)

lemma reveal_at_start:
  assumes "sorted (map distanceFromStartM (p # q # rest))"
    and "distanceFromStartM p = 0" and "0 < distanceFromStartM q"
  shows "revealLonLat (p # q # rest) 0 = [(lon p, lat p), (lon p, lat p)]"
proof -
  have z: "clamp 0 0 1 * x = 0" for x :: real by (simp add: clamp_def)
  have l: "revealLoop None (p # q # rest) 0 = [(lon p, lat p), (lon p, lat p)]"
    using assms(2,3) by (simp add: Let_def clamp_def lerp_def)
  have h: "interpolatePointAtDistance (p # q # rest) 0
           = \<lparr>i_lat = lat p, i_lon = lon p, i_index = 0\<rparr>"
    using interp_first[OF assms(1)] assms(2) by simp
  show ?thesis
    unfolding revealLonLat_def Let_def z l h by simp
qed

text \<open>
  Claim C9, evaluated on the three-point track. At progress 0.5 the reveal distance is 1112
  metres, the distance of the middle point. The loop pushes the first two points and then,
  for the third, the interpolation between the second and the third at fraction 0, which
  is the second point again. The head is the second point too, so it is not pushed a third
  time, but the list ends with the head coordinate twice in a row. The same happens at
  progress 0, where the list is the first point twice.
\<close>

theorem reveal_repeats_head:
  "revealLonLat threePoints 0.5 = [(0, 0), (0.01, 0), (0.01, 0)]
   \<and> i_lon (interpolatePointAtDistance threePoints (clamp 0.5 0 1 * 2224)) = 0.01
   \<and> i_lat (interpolatePointAtDistance threePoints (clamp 0.5 0 1 * 2224)) = 0
   \<and> revealLonLat threePoints 0 = [(0, 0), (0, 0)]
   \<and> i_lon (interpolatePointAtDistance threePoints (clamp 0 0 1 * 2224)) = 0
   \<and> i_lat (interpolatePointAtDistance threePoints (clamp 0 0 1 * 2224)) = 0"
proof -
  have r: "clamp 0.5 0 1 * 2224 = (1112::real)" by (simp add: clamp_def)
  have m: "max (distanceFromStartM (threePoints ! (length threePoints - 1))) 1 = 2224"
    by (simp add: threePoints_def)
  have l: "revealLoop None threePoints 1112 = [(0, 0), (0.01, 0), (0.01, 0)]"
    by (simp add: threePoints_def clamp_def lerp_def Let_def)
  have half: "revealLonLat threePoints 0.5 = [(0, 0), (0.01, 0), (0.01, 0)]"
    unfolding revealLonLat_def Let_def m r l threePoints_head by simp
  have start: "revealLonLat threePoints 0 = [(0, 0), (0, 0)]"
    unfolding threePoints_def by (subst reveal_at_start) simp_all
  have z: "clamp 0 0 1 * 2224 = (0::real)" by (simp add: clamp_def)
  have h0: "interpolatePointAtDistance threePoints 0 = \<lparr>i_lat = 0, i_lon = 0, i_index = 0\<rparr>"
    using interp_first[of threePoints] by (simp add: threePoints_def)
  show ?thesis
    unfolding r z threePoints_head h0 using half start by simp
qed

text \<open>At progress 0.5 the list has three entries and the last two are the head coordinate.\<close>

theorem reveal_repeats_head_witness:
  "length (revealLonLat threePoints 0.5) = 3
   \<and> revealLonLat threePoints 0.5 ! 1 = (0.01, 0)
   \<and> revealLonLat threePoints 0.5 ! 2 = (0.01, 0)
   \<and> length (revealLonLat threePoints 0) = 2"
  using reveal_repeats_head by simp

section \<open>The camera update, step by step\<close>

lemma update_skipped:
  assumes "\<not> updateApplies nowMs force s"
  shows "updateCameraAtProgress v nowMs force s = s"
proof (cases "selectedDetails s = None \<or> \<not> mapReady s \<or> length (effectivePoints s) < 2")
  case True
  then have g1: "(selectedDetails s = None \<or> \<not> mapReady s \<or> length (effectivePoints s) < 2) = True"
    by simp
  show ?thesis
    unfolding updateCameraAtProgress_def Let_def g1 if_True by (rule refl)
next
  case False
  then have g1: "(selectedDetails s = None \<or> \<not> mapReady s \<or> length (effectivePoints s) < 2) = False"
    by simp
  have g2: "(\<not> force \<and> nowMs - lastCameraUpdateMsRef s < 16) = True"
    using assms False by (auto simp: updateApplies_def)
  show ?thesis
    unfolding updateCameraAtProgress_def Let_def g1 g2 if_False if_True by (rule refl)
qed

lemma update_applied:
  "updateApplies nowMs force s \<Longrightarrow>
     updateCameraAtProgress v nowMs force s =
       s\<lparr>lastCameraUpdateMsRef := nowMs,
         lastBearingRef := Some (smoothedBearingAt s v),
         cameraStateRef :=
           Some (blendCamera (cameraStateRef s) (desiredLonAt s v) (desiredLatAt s v)
                   (desiredZoomAt s) (smoothedBearingAt s v)
                   (pitch (cameraPresetOf (cameraPresetId s))) (followAt s)),
         jumps := jumps s @
           [blendCamera (cameraStateRef s) (desiredLonAt s v) (desiredLatAt s v)
              (desiredZoomAt s) (smoothedBearingAt s v)
              (pitch (cameraPresetOf (cameraPresetId s))) (followAt s)]\<rparr>"
proof -
  assume a: "updateApplies nowMs force s"
  have g1: "(selectedDetails s = None \<or> \<not> mapReady s \<or> length (effectivePoints s) < 2) = False"
    using a by (auto simp: updateApplies_def)
  have g2: "(\<not> force \<and> nowMs - lastCameraUpdateMsRef s < 16) = False"
    using a by (auto simp: updateApplies_def)
  show ?thesis
    unfolding updateCameraAtProgress_def Let_def g1 g2 if_False targetDistanceAt_def
      rawBearingAt_def smoothedBearingAt_def desiredLonAt_def desiredLatAt_def
      desiredZoomAt_def followAt_def
    by (rule refl)
qed

lemma update_frame [simp]:
  "selectedDetails (updateCameraAtProgress v nowMs force s) = selectedDetails s"
  "mapReady (updateCameraAtProgress v nowMs force s) = mapReady s"
  "playbackState (updateCameraAtProgress v nowMs force s) = playbackState s"
  "progress (updateCameraAtProgress v nowMs force s) = progress s"
  "speed (updateCameraAtProgress v nowMs force s) = speed s"
  "zoomOffset (updateCameraAtProgress v nowMs force s) = zoomOffset s"
  "cameraPresetId (updateCameraAtProgress v nowMs force s) = cameraPresetId s"
  "lastFrameMsRef (updateCameraAtProgress v nowMs force s) = lastFrameMsRef s"
  "lastUiFrameMsRef (updateCameraAtProgress v nowMs force s) = lastUiFrameMsRef s"
  "progressRef (updateCameraAtProgress v nowMs force s) = progressRef s"
  "playbackPointsRef (updateCameraAtProgress v nowMs force s) = playbackPointsRef s"
  "hasPlayedRef (updateCameraAtProgress v nowMs force s) = hasPlayedRef s"
  by (cases "updateApplies nowMs force s"; simp add: update_applied update_skipped)+

lemma update_effectivePoints [simp]:
  "effectivePoints (updateCameraAtProgress v nowMs force s) = effectivePoints s"
  by (simp add: effectivePoints_def)














section \<open>A loaded track\<close>

lemma playbackSequence_short: "length pts \<le> 2 \<Longrightarrow> playbackSequence pts n = pts"
  by (simp add: playbackSequence_def buildPlaybackPoints_def smoothPlaybackPoints_def)


section \<open>The bearing smoother\<close>







section \<open>Progress values\<close>






section \<open>The zoom offset\<close>


lemma runEffects_zoomOffset [simp]: "zoomOffset (runEffects nowMs before s) = zoomOffset s"
  by (simp add: runEffects_def Let_def)


lemma trackSelected_zoomOffset [simp]: "zoomOffset (trackSelected s) = zoomOffset s"
  by (simp add: trackSelected_def)

lemma detailsLoaded_zoomOffset [simp]: "zoomOffset (detailsLoaded d nowMs s) = zoomOffset s"
  by (simp add: detailsLoaded_def Let_def)

lemma trackLoaded_zoomOffset [simp]: "zoomOffset (trackLoaded d nowMs s) = zoomOffset s"
  by (simp add: trackLoaded_def)







section \<open>Tracks with fewer than two points\<close>

lemma effectivePoints_cong:
  "playbackPointsRef s' = playbackPointsRef s \<Longrightarrow> selectedDetails s' = selectedDetails s \<Longrightarrow>
     effectivePoints s' = effectivePoints s"
  by (simp add: effectivePoints_def)

lemma update_short:
  "length (effectivePoints s) < 2 \<Longrightarrow> updateCameraAtProgress v nowMs force s = s"
  by (rule update_skipped) (simp add: updateApplies_def)

lemma update_short_cong:
  assumes "length (effectivePoints s) < 2"
    and "playbackPointsRef s' = playbackPointsRef s" and "selectedDetails s' = selectedDetails s"
  shows "updateCameraAtProgress v nowMs force s' = s'"
  using assms effectivePoints_cong[OF assms(2,3)] by (simp add: update_short)

lemma togglePlay_short:
  assumes "length (effectivePoints s) < 2"
  shows "jumps (togglePlay nowMs s) = jumps s"
    and "cameraStateRef (togglePlay nowMs s) = cameraStateRef s"
    and "playbackPointsRef (togglePlay nowMs s) = playbackPointsRef s"
    and "selectedDetails (togglePlay nowMs s) = selectedDetails s"
  by (simp_all add: togglePlay_def Let_def update_short_cong[OF assms])

lemma onScrub_short:
  assumes "length (effectivePoints s) < 2"
  shows "jumps (onScrub raw nowMs s) = jumps s"
    and "cameraStateRef (onScrub raw nowMs s) = cameraStateRef s"
    and "playbackPointsRef (onScrub raw nowMs s) = playbackPointsRef s"
    and "selectedDetails (onScrub raw nowMs s) = selectedDetails s"
  by (simp_all add: onScrub_def Let_def update_short_cong[OF assms])

lemma tick_short:
  assumes "length (effectivePoints s) < 2"
  shows "jumps (tick t s) = jumps s"
    and "cameraStateRef (tick t s) = cameraStateRef s"
    and "playbackPointsRef (tick t s) = playbackPointsRef s"
    and "selectedDetails (tick t s) = selectedDetails s"
  by (simp_all add: tick_def Let_def update_short_cong[OF assms] split: option.splits)

lemma handler_short:
  assumes "length (effectivePoints s) < 2"
  shows "jumps (handler c s) = jumps s"
    and "cameraStateRef (handler c s) = cameraStateRef s"
    and "playbackPointsRef (handler c s) = playbackPointsRef s"
    and "selectedDetails (handler c s) = selectedDetails s"
  by (cases c; simp add: togglePlay_short[OF assms] onScrub_short[OF assms] tick_short[OF assms]
        onZoomIn_def onZoomOut_def onPresetChange_def)+

lemma runEffects_short:
  assumes "length (effectivePoints s) < 2"
  shows "jumps (runEffects nowMs before s) = jumps s"
    and "cameraStateRef (runEffects nowMs before s) = cameraStateRef s"
    and "playbackPointsRef (runEffects nowMs before s) = playbackPointsRef s"
    and "selectedDetails (runEffects nowMs before s) = selectedDetails s"
  by (simp_all add: runEffects_def Let_def update_short_cong[OF assms])

lemma step_short:
  assumes "length (effectivePoints s) < 2"
  shows "jumps (step c s) = jumps s"
    and "cameraStateRef (step c s) = cameraStateRef s"
    and "length (effectivePoints (step c s)) < 2"
proof -
  have e: "effectivePoints (handler c s) = effectivePoints s"
    by (rule effectivePoints_cong) (rule handler_short[OF assms])+
  then have h: "length (effectivePoints (handler c s)) < 2" using assms by simp
  show "jumps (step c s) = jumps s"
    by (simp add: step_def runEffects_short[OF h] handler_short[OF assms])
  show "cameraStateRef (step c s) = cameraStateRef s"
    by (simp add: step_def runEffects_short[OF h] handler_short[OF assms])
  have "effectivePoints (step c s) = effectivePoints (handler c s)"
    unfolding step_def by (rule effectivePoints_cong) (rule runEffects_short[OF h])+
  with h show "length (effectivePoints (step c s)) < 2" by simp
qed

lemma run_short:
  "length (effectivePoints s) < 2 \<Longrightarrow>
     jumps (run cs s) = jumps s \<and> cameraStateRef (run cs s) = cameraStateRef s"
proof (induction cs arbitrary: s)
  case Nil
  show ?case by simp
next
  case (Cons c cs)
  from Cons.IH[OF step_short(3)[OF Cons.prems]] show ?case
    by (simp add: step_short(1,2)[OF Cons.prems])
qed

text \<open>
  Claim C2, as amended. While the points in use are fewer than two, no sequence of commands
  and frames emits a camera update or changes the stored pose, and every call of
  \<^verbatim>\<open>updateCameraAtProgress\<close> leaves the state as it is. The play command is a no-op when no
  track is selected; with a track selected, whatever its number of points, it sets the
  playback state to \<^verbatim>\<open>playing\<close> unless playback is running already.
\<close>

theorem short_track_inert:
  "length (effectivePoints s) < 2 \<Longrightarrow>
     jumps (run cs s) = jumps s
     \<and> cameraStateRef (run cs s) = cameraStateRef s
     \<and> updateCameraAtProgress v nowMs force s = s
     \<and> (selectedDetails s = None \<longrightarrow> togglePlay nowMs s = s)
     \<and> (selectedDetails s \<noteq> None \<and> playbackState s \<noteq> Playing
          \<longrightarrow> playbackState (togglePlay nowMs s) = Playing)"
proof -
  assume a: "length (effectivePoints s) < 2"
  have "selectedDetails s \<noteq> None \<and> playbackState s \<noteq> Playing
          \<longrightarrow> playbackState (togglePlay nowMs s) = Playing"
    by (simp add: togglePlay_def Let_def)
  moreover have "selectedDetails s = None \<longrightarrow> togglePlay nowMs s = s"
    by (simp add: togglePlay_def)
  ultimately show ?thesis
    using run_short[OF a, of cs] update_short[OF a, of v nowMs force] by blast
qed

lemma onePoint_state:
  "onePointLoaded =
     (initialApp True)\<lparr>selectedDetails := Some onePointTrack,
        playbackPointsRef := points onePointTrack\<rparr>"
proof -
  have p: "playbackSequence (points onePointTrack) 1800 = points onePointTrack"
    by (rule playbackSequence_short) (simp add: onePointTrack_def)
  have "length (effectivePoints
          ((initialApp True)\<lparr>selectedDetails := Some onePointTrack,
             playbackPointsRef := points onePointTrack\<rparr>)) < 2"
    by (simp add: effectivePoints_def onePointTrack_def)
  from update_short[OF this]
  show ?thesis
    by (simp add: onePointLoaded_def trackLoaded_def trackSelected_def detailsLoaded_def Let_def p initialApp_def)
qed

lemma onePoint_short: "length (effectivePoints onePointLoaded) < 2"
  by (simp add: onePoint_state effectivePoints_def onePointTrack_def)

text \<open>
  With the one-point track loaded, the commands play, scrub and zoom and two frames leave
  the list of emitted poses empty.
\<close>

theorem short_track_inert_witness:
  "length (effectivePoints onePointLoaded) < 2
   \<and> jumps (run [TogglePlay 2000, Tick 3000, Scrub 50 3500, ZoomIn 3600, Tick 4000]
              onePointLoaded) = []
   \<and> cameraStateRef (run [TogglePlay 2000, Tick 3000, Scrub 50 3500, ZoomIn 3600, Tick 4000]
                       onePointLoaded) = None
   \<and> updateCameraAtProgress 0.5 2000 True onePointLoaded = onePointLoaded
   \<and> selectedDetails onePointLoaded \<noteq> None \<and> playbackState onePointLoaded \<noteq> Playing
   \<and> playbackState (togglePlay 2000 onePointLoaded) = Playing"
proof -
  have f: "selectedDetails onePointLoaded \<noteq> None" "playbackState onePointLoaded \<noteq> Playing"
    "jumps onePointLoaded = []" "cameraStateRef onePointLoaded = None"
    by (simp_all add: onePoint_state initialApp_def)
  show ?thesis
    using short_track_inert [OF onePoint_short,
        of "[TogglePlay 2000, Tick 3000, Scrub 50 3500, ZoomIn 3600, Tick 4000]" "0.5" 2000 True]
      onePoint_short f
    by simp
qed

text \<open>
  Claim C2 as stated fails for the play command: with the one-point track loaded it sets the
  state to \<^verbatim>\<open>playing\<close>, and one second of frames moves the progress from 0 to 0.08.
\<close>

theorem play_short_track_counterexample:
  "length (effectivePoints onePointLoaded) < 2
   \<and> playbackState onePointLoaded = Idle
   \<and> playbackState (step (TogglePlay 2000) onePointLoaded) = Playing
   \<and> progressRef (run [TogglePlay 2000, Tick 3000, Tick 4000] onePointLoaded) = 0.08"
proof -
  have u: "updateCameraAtProgress v t f s = s" if "length (effectivePoints s) < 2"
    for v t f s using that by (rule update_short)
  have e: "length (effectivePoints
             (s\<lparr>selectedDetails := Some onePointTrack,
                playbackPointsRef := points onePointTrack\<rparr>)) < 2" for s
    by (simp add: effectivePoints_def onePointTrack_def)
  have "playbackState (step (TogglePlay 2000) onePointLoaded) = Playing"
    by (simp add: onePoint_state initialApp_def step_def togglePlay_def runEffects_def Let_def)
  moreover have "progressRef (run [TogglePlay 2000, Tick 3000, Tick 4000] onePointLoaded) = 0.08"
    apply (simp add: onePoint_state initialApp_def step_def togglePlay_def runEffects_def
        Let_def tick_def clamp_def)
    apply (simp add: u effectivePoints_def onePointTrack_def clamp_def)
    done
  ultimately show ?thesis
    using onePoint_short by (simp add: onePoint_state initialApp_def)
qed

section \<open>Seeking twice\<close>













section \<open>Seeking on the equator track\<close>









end
